theory Spec2Isabelle
  imports Main "HOL-Library.AList" "HOL-Library.List_Lexorder" "HOL-Library.Char_ord"
    "HOL-Library.Sublist"
begin

section \<open>Exceptions\<close>

text \<open>
  Every Python exception the modelled code can raise is a value of \<open>error\<close>.
  \<open>BaseException\<close> stands for the exceptions that do not derive from Python's
  \<open>Exception\<close> class (\<open>SystemExit\<close>, \<open>KeyboardInterrupt\<close>, \<open>GeneratorExit\<close>): a clause
  \<open>except Exception\<close> lets them pass, a bare \<open>except:\<close> catches them.
\<close>

datatype error =
    KeyError string
  | TypeError string
  | ValueError string
  | Exception string
  | BaseException string

fun derives_from_Exception :: "error \<Rightarrow> bool" where
  "derives_from_Exception (BaseException m) = False"
| "derives_from_Exception e = True"

text \<open>\<open>str(e)\<close>: a \<open>KeyError\<close> prints the \<open>repr\<close> of its key, in single quotes.\<close>

fun str_of_error :: "error \<Rightarrow> string" where
  "str_of_error (KeyError k) = [CHR 0x27] @ k @ [CHR 0x27]"
| "str_of_error (TypeError m) = m"
| "str_of_error (ValueError m) = m"
| "str_of_error (Exception m) = m"
| "str_of_error (BaseException m) = m"

section \<open>The bundle splitter of \<open>OpenCTIConnectorHelper\<close>\<close>

subsection \<open>Data model\<close>

text \<open>
  A STIX object is a Python dictionary; the splitter reads the keys below. \<open>id\<close> and
  \<open>type\<close> are read unconditionally on every object and are fields of the record; the
  reference keys may be absent (\<open>None\<close>).
\<close>

record stix_object =
  obj_id :: string
  obj_type :: string
  object_refs :: "string list option"
  source_ref :: "string option"
  target_ref :: "string option"
  created_by_ref :: "string option"
  object_marking_refs :: "string list option"

text \<open>
  The dictionary built by \<open>stix2_create_bundle\<close>, before \<open>json.dumps\<close>. The identifier
  is \<open>bundle--\<close> followed by a fresh \<open>uuid4\<close>, which the model takes as an argument.
\<close>

record stix_bundle =
  bundle_type :: string
  bundle_id :: string
  spec_version :: string
  objects :: "stix_object list"

text \<open>Values stored in the dictionary returned by \<open>stix2_get_embedded_objects\<close>.\<close>

datatype embedded = PyNone | PyObject stix_object | PyList "stix_object list"

text \<open>\<open>d[k]\<close> on a dictionary with string keys: a missing key raises \<open>KeyError\<close>.\<close>

definition getitem :: "(string \<times> 'v) list \<Rightarrow> string \<Rightarrow> error + 'v" where
  "getitem d k = (case map_of d k of None \<Rightarrow> Inl (KeyError k) | Some v \<Rightarrow> Inr v)"

text \<open>\<open>self.cache_index\<close>: filled by the first loop of \<open>split_stix2_bundle\<close>; a later
  object with the same id replaces an earlier one.\<close>

definition index_objects :: "stix_object list \<Rightarrow> (string \<rightharpoonup> stix_object)" where
  "index_objects objs = fold (\<lambda>item m. m(obj_id item \<mapsto> item)) objs Map.empty"

subsection \<open>Closure computation\<close>

definition stix2_get_embedded_objects ::
  "(string \<rightharpoonup> stix_object) \<Rightarrow> stix_object \<Rightarrow> (string \<times> embedded) list" where
  "stix2_get_embedded_objects cache_index item =
     (let marking_refs =
            (case object_marking_refs item of
               None \<Rightarrow> []
             | Some refs \<Rightarrow> List.map_filter cache_index refs);
          created_by =
            (case created_by_ref item of
               None \<Rightarrow> PyNone
             | Some r \<Rightarrow> (case cache_index r of None \<Rightarrow> PyNone | Some c \<Rightarrow> PyObject c))
      in [(''object_marking_refs'', PyList marking_refs), (''created_by_ref'', created_by)])"

text \<open>\<open>items.append(v)\<close> after \<open>v is not None\<close>, and \<open>items + v\<close> after \<open>len(v) > 0\<close>.
  The two shapes that the dictionary above never holds under these keys raise
  \<open>TypeError\<close>.\<close>

fun append_created_by :: "stix_object list \<Rightarrow> embedded \<Rightarrow> error + stix_object list" where
  "append_created_by items PyNone = Inr items"
| "append_created_by items (PyObject c) = Inr (items @ [c])"
| "append_created_by items (PyList l) = Inl (TypeError ''created_by'')"

fun append_marking_refs :: "stix_object list \<Rightarrow> embedded \<Rightarrow> error + stix_object list" where
  "append_marking_refs items (PyList ms) = Inr (if length ms > 0 then items @ ms else items)"
| "append_marking_refs items v = Inl (TypeError ''object_marking_refs'')"

definition stix2_get_entity_objects ::
  "(string \<rightharpoonup> stix_object) \<Rightarrow> stix_object \<Rightarrow> error + stix_object list" where
  "stix2_get_entity_objects cache_index entity =
     (let items = [entity];
          embedded_objects = stix2_get_embedded_objects cache_index entity
      in case getitem embedded_objects ''created_by_ref'' of
           Inl e \<Rightarrow> Inl e
         | Inr cb \<Rightarrow>
             (case append_created_by items cb of
                Inl e \<Rightarrow> Inl e
              | Inr items \<Rightarrow>
                  (case getitem embedded_objects ''object_marking_refs'' of
                     Inl e \<Rightarrow> Inl e
                   | Inr ms \<Rightarrow> append_marking_refs items ms)))"

text \<open>\<open>if relationship[key] in self.cache_index: items.append(...)\<close>; reading an absent
  key raises \<open>KeyError\<close>.\<close>

definition append_endpoint ::
  "(string \<rightharpoonup> stix_object) \<Rightarrow> string \<Rightarrow> string option \<Rightarrow> stix_object list
     \<Rightarrow> error + stix_object list" where
  "append_endpoint cache_index key ref items =
     (case ref of
        None \<Rightarrow> Inl (KeyError key)
      | Some r \<Rightarrow> (case cache_index r of None \<Rightarrow> Inr items | Some x \<Rightarrow> Inr (items @ [x])))"

definition stix2_get_relationship_objects ::
  "(string \<rightharpoonup> stix_object) \<Rightarrow> stix_object \<Rightarrow> error + stix_object list" where
  "stix2_get_relationship_objects cache_index relationship =
     (let items = [relationship] in
      case append_endpoint cache_index ''source_ref'' (source_ref relationship) items of
        Inl e \<Rightarrow> Inl e
      | Inr items \<Rightarrow>
      (case append_endpoint cache_index ''target_ref'' (target_ref relationship) items of
        Inl e \<Rightarrow> Inl e
      | Inr items \<Rightarrow>
      (let embedded_objects = stix2_get_embedded_objects cache_index relationship in
       case getitem embedded_objects ''created_by'' of
         Inl e \<Rightarrow> Inl e
       | Inr cb \<Rightarrow>
           (case append_created_by items cb of
              Inl e \<Rightarrow> Inl e
            | Inr items \<Rightarrow>
                (case getitem embedded_objects ''object_marking_refs'' of
                   Inl e \<Rightarrow> Inl e
                 | Inr ms \<Rightarrow> append_marking_refs items ms)))))"

text \<open>First loop of \<open>stix2_get_report_objects\<close>: \<open>items.append(self.cache_index[ref])\<close>,
  a \<open>KeyError\<close> at the first reference that the index does not hold.\<close>

fun resolve_object_refs ::
  "(string \<rightharpoonup> stix_object) \<Rightarrow> string list \<Rightarrow> stix_object list \<Rightarrow> error + stix_object list"
  where
  "resolve_object_refs cache_index [] items = Inr items"
| "resolve_object_refs cache_index (object_ref # refs) items =
     (case cache_index object_ref of
        None \<Rightarrow> Inl (KeyError object_ref)
      | Some x \<Rightarrow> resolve_object_refs cache_index refs (items @ [x]))"

text \<open>Second loop: \<open>for item in items\<close> walks the list as it stands when the loop starts
  (the report and its resolved references); \<open>items = items + ...\<close> rebinds the name to a
  new list and leaves the walked list alone.\<close>

fun expand_items ::
  "(string \<rightharpoonup> stix_object) \<Rightarrow> stix_object list \<Rightarrow> stix_object list \<Rightarrow> error + stix_object list"
  where
  "expand_items cache_index [] items = Inr items"
| "expand_items cache_index (item # rest) items =
     (case (if obj_type item = ''relationship''
            then stix2_get_relationship_objects cache_index item
            else stix2_get_entity_objects cache_index item) of
        Inl e \<Rightarrow> Inl e
      | Inr found \<Rightarrow> expand_items cache_index rest (items @ found))"

definition stix2_get_report_objects ::
  "(string \<rightharpoonup> stix_object) \<Rightarrow> stix_object \<Rightarrow> error + stix_object list" where
  "stix2_get_report_objects cache_index report =
     (case object_refs report of
        None \<Rightarrow> Inl (KeyError ''object_refs'')
      | Some refs \<Rightarrow>
          (case resolve_object_refs cache_index refs [report] of
             Inl e \<Rightarrow> Inl e
           | Inr items \<Rightarrow> expand_items cache_index items items))"

subsection \<open>Deduplication and bundle creation\<close>

text \<open>The loop of \<open>stix2_deduplicate_objects\<close>, with its two accumulators.\<close>

fun dedup_loop :: "stix_object list \<Rightarrow> string list \<Rightarrow> stix_object list \<Rightarrow> stix_object list" where
  "dedup_loop [] ids final_items = final_items"
| "dedup_loop (item # rest) ids final_items =
     (if obj_id item \<notin> set ids
      then dedup_loop rest (ids @ [obj_id item]) (final_items @ [item])
      else dedup_loop rest ids final_items)"

definition stix2_deduplicate_objects :: "stix_object list \<Rightarrow> stix_object list" where
  "stix2_deduplicate_objects items = dedup_loop items [] []"

definition stix2_create_bundle :: "string \<Rightarrow> stix_object list \<Rightarrow> stix_bundle" where
  "stix2_create_bundle uuid4 items =
     \<lparr>bundle_type = ''bundle'', bundle_id = ''bundle--'' @ uuid4,
      spec_version = ''2.0'', objects = items\<rparr>"

subsection \<open>The three passes\<close>

text \<open>
  The state of a split is \<open>(self.cache_added, bundles)\<close>. \<open>emit\<close> is the common tail of
  the three loop bodies: deduplicate, append every id to \<open>cache_added\<close>, append the new
  bundle. The \<open>n\<close>-th bundle created takes its identifier from \<open>uuids n\<close>.
\<close>

type_synonym split_state = "string list \<times> stix_bundle list"

definition emit :: "(nat \<Rightarrow> string) \<Rightarrow> stix_object list \<Rightarrow> split_state \<Rightarrow> split_state" where
  "emit uuids items st =
     (let items_to_send = stix2_deduplicate_objects items
      in (fst st @ map obj_id items_to_send,
          snd st @ [stix2_create_bundle (uuids (length (snd st))) items_to_send]))"

fun report_loop ::
  "(string \<rightharpoonup> stix_object) \<Rightarrow> (nat \<Rightarrow> string) \<Rightarrow> stix_object list \<Rightarrow> split_state
     \<Rightarrow> error + split_state" where
  "report_loop cache_index uuids [] st = Inr st"
| "report_loop cache_index uuids (item # rest) st =
     (if obj_type item = ''report''
      then (case stix2_get_report_objects cache_index item of
              Inl e \<Rightarrow> Inl e
            | Inr items \<Rightarrow> report_loop cache_index uuids rest (emit uuids items st))
      else report_loop cache_index uuids rest st)"

fun relationship_loop ::
  "(string \<rightharpoonup> stix_object) \<Rightarrow> (nat \<Rightarrow> string) \<Rightarrow> stix_object list \<Rightarrow> split_state
     \<Rightarrow> error + split_state" where
  "relationship_loop cache_index uuids [] st = Inr st"
| "relationship_loop cache_index uuids (item # rest) st =
     (if obj_type item = ''relationship'' \<and> obj_id item \<notin> set (fst st)
      then (case stix2_get_relationship_objects cache_index item of
              Inl e \<Rightarrow> Inl e
            | Inr items \<Rightarrow> relationship_loop cache_index uuids rest (emit uuids items st))
      else relationship_loop cache_index uuids rest st)"

fun entity_loop ::
  "(string \<rightharpoonup> stix_object) \<Rightarrow> (nat \<Rightarrow> string) \<Rightarrow> stix_object list \<Rightarrow> split_state
     \<Rightarrow> error + split_state" where
  "entity_loop cache_index uuids [] st = Inr st"
| "entity_loop cache_index uuids (item # rest) st =
     (if obj_type item \<noteq> ''relationship'' \<and> obj_id item \<notin> set (fst st)
      then (case stix2_get_entity_objects cache_index item of
              Inl e \<Rightarrow> Inl e
            | Inr items \<Rightarrow> entity_loop cache_index uuids rest (emit uuids items st))
      else entity_loop cache_index uuids rest st)"

text \<open>
  \<open>split_stix2_bundle\<close>. The argument is what \<open>json.loads(bundle)["objects"]\<close> yields:
  \<open>None\<close> when \<open>json.loads\<close> raises, which the method turns into its own exception.
\<close>

definition split_stix2_bundle ::
  "(nat \<Rightarrow> string) \<Rightarrow> stix_object list option \<Rightarrow> error + stix_bundle list" where
  "split_stix2_bundle uuids bundle_data =
     (case bundle_data of
        None \<Rightarrow> Inl (Exception ''File data is not a valid JSON'')
      | Some objs \<Rightarrow>
          (let cache_index = index_objects objs in
           case report_loop cache_index uuids objs ([], []) of
             Inl e \<Rightarrow> Inl e
           | Inr st1 \<Rightarrow>
           (case relationship_loop cache_index uuids objs st1 of
             Inl e \<Rightarrow> Inl e
           | Inr st2 \<Rightarrow>
           (case entity_loop cache_index uuids objs st2 of
             Inl e \<Rightarrow> Inl e
           | Inr st3 \<Rightarrow> Inr (snd st3)))))"

subsection \<open>TLP check\<close>

definition allowed_tlps :: "(string \<times> string list) list" where
  "allowed_tlps =
     [(''TLP:RED'', [''TLP:WHITE'', ''TLP:GREEN'', ''TLP:AMBER'', ''TLP:RED'']),
      (''TLP:AMBER'', [''TLP:WHITE'', ''TLP:GREEN'', ''TLP:AMBER'']),
      (''TLP:GREEN'', [''TLP:WHITE'', ''TLP:GREEN'']),
      (''TLP:WHITE'', [''TLP:WHITE''])]"

definition check_max_tlp :: "string \<Rightarrow> string \<Rightarrow> error + bool" where
  "check_max_tlp tlp max_tlp =
     (case getitem allowed_tlps max_tlp of
        Inl e \<Rightarrow> Inl e
      | Inr allowed \<Rightarrow> Inr (tlp \<in> set allowed))"

text \<open>The containment order of the specification, WHITE below GREEN below AMBER below
  RED, as the position of a level in the list of levels.\<close>

definition tlp_levels :: "string list" where
  "tlp_levels = [''TLP:WHITE'', ''TLP:GREEN'', ''TLP:AMBER'', ''TLP:RED'']"

definition tlp_rank :: "string \<Rightarrow> nat" where
  "tlp_rank tlp =
     (if tlp = ''TLP:WHITE'' then 0
      else if tlp = ''TLP:GREEN'' then 1
      else if tlp = ''TLP:AMBER'' then 2
      else 3)"

subsection \<open>Notions used to state the splitter's properties\<close>

text \<open>The ids of a sub-bundle, in order, and the ids emitted by a sequence of
  sub-bundles.\<close>

definition bundle_ids :: "stix_bundle \<Rightarrow> string list" where
  "bundle_ids b = map obj_id (objects b)"

definition emitted_ids :: "stix_bundle list \<Rightarrow> string set" where
  "emitted_ids bs = (\<Union>b\<in>set bs. set (bundle_ids b))"

text \<open>The loop invariant: \<open>cache_added\<close> holds exactly the ids emitted so far, and no
  sub-bundle holds an id twice.\<close>

definition split_inv :: "split_state \<Rightarrow> bool" where
  "split_inv st \<longleftrightarrow> set (fst st) = emitted_ids (snd st) \<and> (\<forall>b\<in>set (snd st). distinct (bundle_ids b))"

text \<open>From position \<open>n\<close> on, every sub-bundle starts with an object whose id occurs in
  no earlier sub-bundle.\<close>

definition seeds_fresh :: "nat \<Rightarrow> stix_bundle list \<Rightarrow> bool" where
  "seeds_fresh n bs \<longleftrightarrow>
     (\<forall>k<length bs. n \<le> k \<longrightarrow> objects (bs ! k) \<noteq> [] \<and> obj_id (hd (objects (bs ! k))) \<notin> emitted_ids (take k bs))"

subsection \<open>Example bundles\<close>

definition plain_object :: "string \<Rightarrow> string \<Rightarrow> stix_object" where
  "plain_object i t =
     \<lparr>obj_id = i, obj_type = t, object_refs = None, source_ref = None,
      target_ref = None, created_by_ref = None, object_marking_refs = None\<rparr>"

definition relationship_object :: "string \<Rightarrow> string \<Rightarrow> string \<Rightarrow> stix_object" where
  "relationship_object i s t =
     (plain_object i ''relationship'')\<lparr>source_ref := Some s, target_ref := Some t\<rparr>"

definition example_uuids :: "nat \<Rightarrow> string" where
  "example_uuids n = replicate (Suc n) (CHR ''a'')"

text \<open>An identity and an indicator created by it.\<close>

definition author_bundle :: "stix_object list" where
  "author_bundle =
     [plain_object ''identity--I'' ''identity'',
      (plain_object ''indicator--A'' ''indicator'')\<lparr>created_by_ref := Some ''identity--I''\<rparr>]"

text \<open>A report R on relationship X (from A to B) and entity C, and a relationship Y (from
  D to E) that nothing refers to.\<close>

definition report_bundle :: "stix_object list" where
  "report_bundle =
     [(plain_object ''report--R'' ''report'')
        \<lparr>object_refs := Some [''relationship--X'', ''indicator--C'']\<rparr>,
      relationship_object ''relationship--X'' ''malware--A'' ''malware--B'',
      plain_object ''malware--A'' ''malware'',
      plain_object ''malware--B'' ''malware'',
      plain_object ''indicator--C'' ''indicator'',
      relationship_object ''relationship--Y'' ''malware--D'' ''malware--E'',
      plain_object ''malware--D'' ''malware'',
      plain_object ''malware--E'' ''malware'']"

text \<open>A report whose only reference names an object that the bundle does not hold.\<close>

definition dangling_report_bundle :: "stix_object list" where
  "dangling_report_bundle =
     [(plain_object ''report--R'' ''report'')\<lparr>object_refs := Some [''indicator--missing'']\<rparr>]"

text \<open>A relationship outside any report, with both endpoints in the bundle.\<close>

definition loose_relationship_bundle :: "stix_object list" where
  "loose_relationship_bundle =
     [relationship_object ''relationship--Y'' ''malware--D'' ''malware--E'',
      plain_object ''malware--D'' ''malware'',
      plain_object ''malware--E'' ''malware'']"

section \<open>JSON values and the \<open>json\<close> module\<close>

text \<open>
  The values that \<open>json.loads\<close> returns, which \<open>json.dumps\<close> writes as they are, with
  Python's \<open>None\<close> as \<open>JNull\<close>. A dictionary is the list of its entries in insertion
  order, with string keys; numbers are integers.
\<close>

datatype json =
    JNull
  | JBool bool
  | JInt int
  | JString string
  | JArray "json list"
  | JObject "(string \<times> json) list"

text \<open>
  \<open>json.dumps\<close> and \<open>json.loads\<close> belong to the Python standard library, not to the
  connector: the connector's functions take them as a parameter. \<open>loads\<close> returns \<open>None\<close>
  where \<open>json.loads\<close> raises \<open>JSONDecodeError\<close>.
\<close>

record json_module =
  dumps :: "json \<Rightarrow> string"
  loads :: "string \<Rightarrow> json option"

text \<open>
  Python's \<open>==\<close> on these values: \<open>True == 1\<close> and \<open>False == 0\<close>, lists are compared
  element by element, dictionaries entry by entry whatever the insertion order. Two values
  are equal when their normal forms are, a dictionary's normal form having its entries
  sorted by key.
\<close>

fun py_norm :: "json \<Rightarrow> json" where
  "py_norm (JBool b) = JInt (if b then 1 else 0)"
| "py_norm (JArray xs) = JArray (map py_norm xs)"
| "py_norm (JObject kvs) = JObject (sort_key fst (map (\<lambda>(k, v). (k, py_norm v)) kvs))"
| "py_norm v = v"

definition py_eq :: "json \<Rightarrow> json \<Rightarrow> bool" where
  "py_eq a b \<longleftrightarrow> py_norm a = py_norm b"

subsection \<open>An executable \<open>json\<close> module\<close>

text \<open>
  The module on the values above: a serialiser that writes what \<open>json.dumps\<close> writes with
  its default separators, and a recursive-descent parser for JSON text with integer
  numbers. Like \<open>json.loads\<close>, the parser allows whitespace between tokens and keeps the
  last value of a repeated key, at the place of the first. It counts down a fuel that
  bounds the nesting and the number of elements; \<open>json_loads\<close> starts it above the length
  of the text. A text with a fraction or an exponent, or with an escape for a character
  above 255, is outside these values and does not parse.
\<close>

text \<open>Strings, as \<open>json.dumps\<close> writes them by default: a backslash before a double
  quote and a backslash, the short escapes for the five control characters that have
  one, and \<open>u00XX\<close> for every other character outside the range from space to tilde.\<close>

definition hex_digit :: "nat \<Rightarrow> char" where
  "hex_digit d = (if d < 10 then char_of (48 + d) else char_of (87 + d))"

definition escape_char :: "char \<Rightarrow> string" where
  "escape_char c =
     (if c = CHR 0x22 then [CHR 0x5C, CHR 0x22]
      else if c = CHR 0x5C then [CHR 0x5C, CHR 0x5C]
      else if c = CHR 0x0A then [CHR 0x5C, CHR ''n'']
      else if c = CHR 0x0D then [CHR 0x5C, CHR ''r'']
      else if c = CHR 0x09 then [CHR 0x5C, CHR ''t'']
      else if c = CHR 0x08 then [CHR 0x5C, CHR ''b'']
      else if c = CHR 0x0C then [CHR 0x5C, CHR ''f'']
      else if (of_char c :: nat) < 32 \<or> 126 < (of_char c :: nat)
      then [CHR 0x5C, CHR ''u'', CHR ''0'', CHR ''0'',
            hex_digit (of_char c div 16), hex_digit (of_char c mod 16)]
      else [c])"

definition escape_string :: "string \<Rightarrow> string" where
  "escape_string s = concat (map escape_char s)"

definition dumps_string :: "string \<Rightarrow> string" where
  "dumps_string s = [CHR 0x22] @ escape_string s @ [CHR 0x22]"

text \<open>Integers in decimal.\<close>

fun nat_digits :: "nat \<Rightarrow> string" where
  "nat_digits n =
     (if n < 10 then [char_of (48 + n)] else nat_digits (n div 10) @ [char_of (48 + n mod 10)])"

definition dumps_int :: "int \<Rightarrow> string" where
  "dumps_int i = (if i < 0 then CHR ''-'' # nat_digits (nat (- i)) else nat_digits (nat i))"

fun join :: "string \<Rightarrow> string list \<Rightarrow> string" where
  "join sep [] = []"
| "join sep [x] = x"
| "join sep (x # y # ys) = x @ sep @ join sep (y # ys)"

fun json_dumps :: "json \<Rightarrow> string" where
  "json_dumps JNull = ''null''"
| "json_dumps (JBool b) = (if b then ''true'' else ''false'')"
| "json_dumps (JInt i) = dumps_int i"
| "json_dumps (JString s) = dumps_string s"
| "json_dumps (JArray xs) = ''['' @ join '', '' (map json_dumps xs) @ '']''"
| "json_dumps (JObject kvs) =
     ''{'' @ join '', '' (map (\<lambda>(k, v). dumps_string k @ '': '' @ json_dumps v) kvs) @ ''}''"

text \<open>The parser.\<close>

definition is_ws :: "char \<Rightarrow> bool" where
  "is_ws c \<longleftrightarrow> c = CHR '' '' \<or> c = CHR 0x0A \<or> c = CHR 0x0D \<or> c = CHR 0x09"

definition is_digit :: "char \<Rightarrow> bool" where
  "is_digit c \<longleftrightarrow> (48::nat) \<le> of_char c \<and> of_char c \<le> (57::nat)"

definition skip_ws :: "string \<Rightarrow> string" where
  "skip_ws cs = dropWhile is_ws cs"

text \<open>The escapes \<open>json.loads\<close> accepts inside a string. A \<open>u\<close> escape denotes a
  character of the model when its code is below 256.\<close>

definition hex_value :: "char \<Rightarrow> nat option" where
  "hex_value c =
     (let n = of_char c :: nat in
      if 48 \<le> n \<and> n \<le> 57 then Some (n - 48)
      else if 97 \<le> n \<and> n \<le> 102 then Some (n - 87)
      else if 65 \<le> n \<and> n \<le> 70 then Some (n - 55)
      else None)"

definition hex4 :: "char \<Rightarrow> char \<Rightarrow> char \<Rightarrow> char \<Rightarrow> nat option" where
  "hex4 a b c d =
     (case (hex_value a, hex_value b, hex_value c, hex_value d) of
        (Some w, Some x, Some y, Some z) \<Rightarrow> Some (((w * 16 + x) * 16 + y) * 16 + z)
      | _ \<Rightarrow> None)"

definition unescape :: "char \<Rightarrow> char option" where
  "unescape d =
     (if d = CHR 0x22 \<or> d = CHR 0x5C \<or> d = CHR ''/'' then Some d
      else if d = CHR ''n'' then Some (CHR 0x0A)
      else if d = CHR ''r'' then Some (CHR 0x0D)
      else if d = CHR ''t'' then Some (CHR 0x09)
      else if d = CHR ''b'' then Some (CHR 0x08)
      else if d = CHR ''f'' then Some (CHR 0x0C)
      else None)"

text \<open>The characters of a string up to its closing quote; a control character that is not
  escaped ends the parse with an error.\<close>

fun parse_string_chars :: "string \<Rightarrow> string \<Rightarrow> (string \<times> string) option" where
  "parse_string_chars [] acc = None"
| "parse_string_chars (c # cs) acc =
     (if c = CHR 0x22 then Some (acc, cs)
      else if c = CHR 0x5C
      then (case cs of
              [] \<Rightarrow> None
            | d # ds \<Rightarrow>
                if d = CHR ''u''
                then (case ds of
                        h1 # h2 # h3 # h4 # rest \<Rightarrow>
                          (case hex4 h1 h2 h3 h4 of
                             None \<Rightarrow> None
                           | Some n \<Rightarrow>
                               if n < 256 then parse_string_chars rest (acc @ [char_of n])
                               else None)
                      | _ \<Rightarrow> None)
                else (case unescape d of
                        None \<Rightarrow> None
                      | Some e \<Rightarrow> parse_string_chars ds (acc @ [e])))
      else if (of_char c :: nat) < 32 then None
      else parse_string_chars cs (acc @ [c]))"

definition digits_value :: "string \<Rightarrow> nat" where
  "digits_value ds = foldl (\<lambda>n c. 10 * n + (of_char c - 48)) 0 ds"

text \<open>A run of digits, refused when it is empty or has a leading zero.\<close>

definition parse_nat :: "string \<Rightarrow> (nat \<times> string) option" where
  "parse_nat cs =
     (let ds = takeWhile is_digit cs
      in if ds = [] \<or> (length ds > 1 \<and> hd ds = CHR ''0'') then None
         else Some (digits_value ds, dropWhile is_digit cs))"

definition parse_literal :: "string \<Rightarrow> json \<Rightarrow> string \<Rightarrow> (json \<times> string) option" where
  "parse_literal lit v cs =
     (if take (length lit) cs = lit then Some (v, drop (length lit) cs) else None)"

fun parse_value :: "nat \<Rightarrow> string \<Rightarrow> (json \<times> string) option"
  and parse_elements :: "nat \<Rightarrow> string \<Rightarrow> json list \<Rightarrow> (json \<times> string) option"
  and parse_members :: "nat \<Rightarrow> string \<Rightarrow> (string \<times> json) list \<Rightarrow> (json \<times> string) option"
  where
  "parse_value 0 cs = None"
| "parse_value (Suc n) cs =
     (case skip_ws cs of
        [] \<Rightarrow> None
      | c # rest \<Rightarrow>
          if c = CHR ''n'' then parse_literal ''null'' JNull (c # rest)
          else if c = CHR ''t'' then parse_literal ''true'' (JBool True) (c # rest)
          else if c = CHR ''f'' then parse_literal ''false'' (JBool False) (c # rest)
          else if c = CHR 0x22
          then (case parse_string_chars rest [] of
                  None \<Rightarrow> None
                | Some (s, r) \<Rightarrow> Some (JString s, r))
          else if c = CHR ''-''
          then (case parse_nat rest of
                  None \<Rightarrow> None
                | Some (m, r) \<Rightarrow> Some (JInt (- int m), r))
          else if is_digit c
          then (case parse_nat (c # rest) of
                  None \<Rightarrow> None
                | Some (m, r) \<Rightarrow> Some (JInt (int m), r))
          else if c = CHR ''[''
          then (case skip_ws rest of
                  [] \<Rightarrow> None
                | d # r \<Rightarrow> if d = CHR '']'' then Some (JArray [], r)
                           else parse_elements n rest [])
          else if c = CHR ''{''
          then (case skip_ws rest of
                  [] \<Rightarrow> None
                | d # r \<Rightarrow> if d = CHR ''}'' then Some (JObject [], r)
                           else parse_members n rest [])
          else None)"
| "parse_elements 0 cs acc = None"
| "parse_elements (Suc n) cs acc =
     (case parse_value n cs of
        None \<Rightarrow> None
      | Some (v, r) \<Rightarrow>
          (case skip_ws r of
             [] \<Rightarrow> None
           | d # r' \<Rightarrow>
               if d = CHR '','' then parse_elements n r' (acc @ [v])
               else if d = CHR '']'' then Some (JArray (acc @ [v]), r')
               else None))"
| "parse_members 0 cs acc = None"
| "parse_members (Suc n) cs acc =
     (case skip_ws cs of
        [] \<Rightarrow> None
      | q # rest \<Rightarrow>
          if q \<noteq> CHR 0x22 then None
          else (case parse_string_chars rest [] of
                  None \<Rightarrow> None
                | Some (k, r) \<Rightarrow>
                    (case skip_ws r of
                       [] \<Rightarrow> None
                     | colon # r1 \<Rightarrow>
                         if colon \<noteq> CHR '':'' then None
                         else (case parse_value n r1 of
                                 None \<Rightarrow> None
                               | Some (v, r2) \<Rightarrow>
                                   (case skip_ws r2 of
                                      [] \<Rightarrow> None
                                    | d # r3 \<Rightarrow>
                                        if d = CHR '',''
                                        then parse_members n r3 (AList.update k v acc)
                                        else if d = CHR ''}''
                                        then Some (JObject (AList.update k v acc), r3)
                                        else None)))))"

definition json_loads :: "string \<Rightarrow> json option" where
  "json_loads s =
     (case parse_value (Suc (length s)) s of
        None \<Rightarrow> None
      | Some (v, r) \<Rightarrow> if skip_ws r = [] then Some v else None)"





definition py_json :: json_module where
  "py_json = \<lparr>dumps = json_dumps, loads = json_loads\<rparr>"

section \<open>Connector state\<close>

text \<open>
  The fields of \<open>OpenCTIConnectorHelper\<close> that the modelled methods read or write.
  \<open>connector_state\<close> is the JSON text received from the control plane at registration, or
  \<open>None\<close>.
\<close>

record helper =
  connector_state :: "string option"
  work_id :: json
  applicant_id :: json

definition set_state :: "json_module \<Rightarrow> json \<Rightarrow> helper \<Rightarrow> helper" where
  "set_state J state h = h\<lparr>connector_state := Some (dumps J state)\<rparr>"

text \<open>\<open>get_state\<close> returns the decoded state when it is a non-empty dictionary, and
  \<open>None\<close> on every other path, the bare \<open>except\<close> included.\<close>

definition get_state :: "json_module \<Rightarrow> helper \<Rightarrow> json" where
  "get_state J h =
     (case connector_state h of
        None \<Rightarrow> JNull
      | Some s \<Rightarrow>
          if s = [] then JNull
          else (case loads J s of
                  None \<Rightarrow> JNull
                | Some state \<Rightarrow>
                    (case state of
                       JObject kvs \<Rightarrow> if kvs \<noteq> [] then state else JNull
                     | _ \<Rightarrow> JNull)))"







section \<open>\<open>PingAlive\<close>\<close>

text \<open>
  What the loops write to the log; \<open>LogStateReset\<close> carries the value of
  \<open>self.get_state()\<close> that the reset message prints.
\<close>

datatype log_entry = LogInfo string | LogError string | LogException string | LogStateReset json

record ping_alive =
  in_error :: bool
  ping_helper :: helper
  ping_log :: "log_entry list"

text \<open>The value of \<open>result["connector_state"]\<close>, a string or \<open>None\<close>, as a Python value.\<close>

definition json_of_str :: "string option \<Rightarrow> json" where
  "json_of_str v = (case v of None \<Rightarrow> JNull | Some s \<Rightarrow> JString s)"

text \<open>
  The body of the \<open>try\<close> in \<open>PingAlive.ping\<close>. \<open>api_ping\<close> is the answer of
  \<open>self.api.connector.ping\<close> to the state snapshot it is sent: an exception, or the
  \<open>connector_state\<close> of the result.
\<close>

definition ping_try ::
  "json_module \<Rightarrow> (json \<Rightarrow> error + string option) \<Rightarrow> ping_alive \<Rightarrow> error + ping_alive" where
  "ping_try J api_ping p =
     (let initial_state = get_state J (ping_helper p) in
      case api_ping initial_state of
        Inl e \<Rightarrow> Inl e
      | Inr result_state \<Rightarrow>
          (case (case result_state of
                   None \<Rightarrow> Inr JNull
                 | Some s \<Rightarrow>
                     if length s > 0
                     then (case loads J s of
                             None \<Rightarrow> Inl (ValueError ''JSONDecodeError'')
                           | Some v \<Rightarrow> Inr v)
                     else Inr JNull) of
             Inl e \<Rightarrow> Inl e
           | Inr remote_state \<Rightarrow>
               (let p1 = (if \<not> py_eq initial_state remote_state
                          then (let h = set_state J (json_of_str result_state) (ping_helper p)
                                in p\<lparr>ping_helper := h,
                                     ping_log := ping_log p @ [LogStateReset (get_state J h)]\<rparr>)
                          else p);
                    p2 = (if in_error p1
                          then p1\<lparr>in_error := False,
                                  ping_log := ping_log p1 @ [LogError ''API Ping back to normal'']\<rparr>
                          else p1)
                in Inr p2)))"

text \<open>One pass of the loop: \<open>except Exception\<close> sets \<open>in_error\<close>; an exception outside
  \<open>Exception\<close> leaves the loop.\<close>

definition ping_iteration ::
  "json_module \<Rightarrow> (json \<Rightarrow> error + string option) \<Rightarrow> ping_alive \<Rightarrow> error + ping_alive" where
  "ping_iteration J api_ping p =
     (case ping_try J api_ping p of
        Inr p' \<Rightarrow> Inr p'
      | Inl e \<Rightarrow>
          if derives_from_Exception e
          then Inr (p\<lparr>in_error := True, ping_log := ping_log p @ [LogError ''Error pinging the API'']\<rparr>)
          else Inl e)"

text \<open>The loop, one answer of the control plane per pass, until \<open>exit_event\<close> is set.\<close>

fun ping :: "json_module \<Rightarrow> (json \<Rightarrow> error + string option) list \<Rightarrow> ping_alive \<Rightarrow> error + ping_alive"
  where
  "ping J [] p = Inr p"
| "ping J (api_ping # later) p =
     (case ping_iteration J api_ping p of
        Inl e \<Rightarrow> Inl e
      | Inr p' \<Rightarrow> ping J later p')"

section \<open>\<open>ListenStream\<close>\<close>

record sse_event =
  msg_id :: "string option"
  msg_event :: string
  msg_data :: string

text \<open>\<open>delivered\<close> records the events the user callback has been invoked with.\<close>

record listen_stream =
  start_timestamp :: "string option"
  stream_helper :: helper
  delivered :: "sse_event list"

text \<open>
  \<open>state = self.helper.get_state(); state["connectorLastEventId"] = str(msg.id);
  self.helper.set_state(state)\<close>. Assigning into \<open>None\<close> raises \<open>TypeError\<close>.
\<close>

definition checkpoint :: "json_module \<Rightarrow> string \<Rightarrow> helper \<Rightarrow> error + helper" where
  "checkpoint J event_id h =
     (case get_state J h of
        JObject kvs \<Rightarrow>
          Inr (set_state J (JObject (AList.update ''connectorLastEventId'' (JString event_id) kvs)) h)
      | _ \<Rightarrow> Inl (TypeError ''NoneType object does not support item assignment''))"

definition checkpoint_if_id :: "json_module \<Rightarrow> sse_event \<Rightarrow> listen_stream \<Rightarrow> error + listen_stream" where
  "checkpoint_if_id J msg ls =
     (case msg_id msg of
        None \<Rightarrow> Inr ls
      | Some event_id \<Rightarrow>
          (case checkpoint J event_id (stream_helper ls) of
             Inl e \<Rightarrow> Inl e
           | Inr h \<Rightarrow> Inr (ls\<lparr>stream_helper := h\<rparr>)))"

text \<open>
  The loop \<open>for msg in messages\<close>. Each event comes with the value of \<open>self.exit\<close> read
  at its turn, which another thread may have set. The callback returns or raises, and is
  taken to leave the connector state alone. The first component of the result is the
  exception that ended the loop, if any (\<open>run\<close> hands it to \<open>sys.excepthook\<close>).
\<close>

fun iter_messages ::
  "json_module \<Rightarrow> (sse_event \<Rightarrow> error option) \<Rightarrow> (bool \<times> sse_event) list \<Rightarrow> listen_stream
     \<Rightarrow> error option \<times> listen_stream" where
  "iter_messages J callback [] ls = (None, ls)"
| "iter_messages J callback ((exit_flag, msg) # messages) ls =
     (if exit_flag then (None, ls)
      else if msg_event msg = ''heartbeat'' \<or> msg_event msg = ''connected''
      then iter_messages J callback messages ls
      else if msg_event msg = ''sync''
      then (case checkpoint_if_id J msg ls of
              Inl e \<Rightarrow> (Some e, ls)
            | Inr ls' \<Rightarrow> iter_messages J callback messages ls')
      else (let ls1 = ls\<lparr>delivered := delivered ls @ [msg]\<rparr> in
            case callback msg of
              Some e \<Rightarrow> (Some e, ls1)
            | None \<Rightarrow>
                (case checkpoint_if_id J msg ls1 of
                   Inl e \<Rightarrow> (Some e, ls1)
                 | Inr ls' \<Rightarrow> iter_messages J callback messages ls')))"

text \<open>The state \<open>run\<close> stores when \<open>get_state\<close> returns \<open>None\<close>.\<close>

definition initial_stream_state :: "string option \<Rightarrow> json" where
  "initial_stream_state ts =
     JObject [(''connectorLastEventId'',
               JString (case ts of
                          None \<Rightarrow> ''-''
                        | Some t \<Rightarrow> if length t > 0 then t @ ''-0'' else ''-''))]"

text \<open>\<open>ListenStream.run\<close>, without the construction of the URL and headers handed to
  \<open>SSEClient\<close>.\<close>

definition listen_stream_run ::
  "json_module \<Rightarrow> (sse_event \<Rightarrow> error option) \<Rightarrow> (bool \<times> sse_event) list \<Rightarrow> listen_stream
     \<Rightarrow> error option \<times> listen_stream" where
  "listen_stream_run J callback messages ls =
     (let ls0 = (if get_state J (stream_helper ls) = JNull
                 then ls\<lparr>stream_helper :=
                           set_state J (initial_stream_state (start_timestamp ls)) (stream_helper ls)\<rparr>
                 else ls)
      in iter_messages J callback messages ls0)"

section \<open>\<open>ListenQueue\<close>\<close>

text \<open>The calls a message handler makes on the broker channel, the work-tracking API,
  the callback and the log, in the order it makes them.\<close>

datatype action =
    BasicAck nat
  | ThreadStart json
  | WorkPing json
  | Sleep nat
  | SetApplicantIdHeader json
  | ToReceived json string
  | Callback json
  | ToProcessed json string bool
  | Log log_entry

text \<open>What the worker calls into: each call returns, or raises an exception.\<close>

record worker_env =
  to_received :: "json \<Rightarrow> string \<Rightarrow> error option"
  to_processed :: "json \<Rightarrow> string \<Rightarrow> bool \<Rightarrow> error option"
  message_callback :: "json \<Rightarrow> error + string"

text \<open>\<open>v[k]\<close> with a string key: \<open>KeyError\<close> on a dictionary without the key,
  \<open>TypeError\<close> on any other value.\<close>

definition subscript :: "json \<Rightarrow> string \<Rightarrow> error + json" where
  "subscript v k =
     (case v of
        JObject kvs \<Rightarrow> getitem kvs k
      | _ \<Rightarrow> Inl (TypeError ''object is not subscriptable by a string''))"

text \<open>The body of the \<open>try\<close> in \<open>_data_handler\<close>: the actions made, and the exception
  that ended it, if any.\<close>

definition data_handler_try :: "worker_env \<Rightarrow> json \<Rightarrow> json \<Rightarrow> action list \<times> error option" where
  "data_handler_try env wid json_data =
     (let a1 = [ToReceived wid ''Connector ready to process the operation''] in
      case to_received env wid ''Connector ready to process the operation'' of
        Some e \<Rightarrow> (a1, Some e)
      | None \<Rightarrow>
          (case subscript json_data ''event'' of
             Inl e \<Rightarrow> (a1, Some e)
           | Inr event \<Rightarrow>
               (let a2 = a1 @ [Callback event] in
                case message_callback env event of
                  Inl e \<Rightarrow> (a2, Some e)
                | Inr message \<Rightarrow>
                    (a2 @ [ToProcessed wid message False],
                     to_processed env wid message False))))"

text \<open>\<open>_data_handler\<close>: the exception that leaves it (if any), the helper, the actions.\<close>

definition data_handler ::
  "worker_env \<Rightarrow> json \<Rightarrow> helper \<Rightarrow> error option \<times> helper \<times> action list" where
  "data_handler env json_data h =
     (case subscript json_data ''internal'' of
        Inl e \<Rightarrow> (Some e, h, [])
      | Inr internal \<Rightarrow>
      (case subscript internal ''work_id'' of
        Inl e \<Rightarrow> (Some e, h, [])
      | Inr wid \<Rightarrow>
      (case subscript internal ''applicant_id'' of
        Inl e \<Rightarrow> (Some e, h, [])
      | Inr aid \<Rightarrow>
          (let h1 = h\<lparr>work_id := wid\<rparr>;
               h2 = (if aid \<noteq> JNull then h1\<lparr>applicant_id := aid\<rparr> else h1);
               a0 = (if aid \<noteq> JNull then [SetApplicantIdHeader aid] else []);
               tried = data_handler_try env wid json_data
           in case snd tried of
                None \<Rightarrow> (None, h2, a0 @ fst tried)
              | Some e \<Rightarrow>
                  if derives_from_Exception e
                  then (let a2 = a0 @ fst tried @
                                 [Log (LogException ''Error in message processing, reporting error to API''),
                                  ToProcessed wid (str_of_error e) True]
                        in case to_processed env wid (str_of_error e) True of
                             None \<Rightarrow> (None, h2, a2)
                           | Some e2 \<Rightarrow>
                               (None, h2, a2 @ [Log (LogError ''Failing reporting the processing'')]))
                  else (Some e, h2, a0 @ fst tried)))))"

text \<open>
  The polling loop of \<open>_process_message\<close>: one pass per second while the worker thread
  is alive, \<open>polls\<close> holding the value of \<open>self.helper.work_id\<close> read at each pass.
\<close>

fun wait_loop :: "json list \<Rightarrow> nat \<Rightarrow> action list" where
  "wait_loop [] time_wait = []"
| "wait_loop (wid # polls) time_wait =
     (if wid \<noteq> JNull \<and> time_wait > 60 * 5
      then WorkPing wid # Sleep 1 # wait_loop polls 0
      else Sleep 1 # wait_loop polls (time_wait + 1))"

text \<open>\<open>_process_message\<close>, on the consumer thread: decode, acknowledge, start the
  worker, wait.\<close>

definition process_message ::
  "json_module \<Rightarrow> nat \<Rightarrow> string \<Rightarrow> json list \<Rightarrow> error option \<times> action list" where
  "process_message J delivery_tag body polls =
     (case loads J body of
        None \<Rightarrow> (Some (ValueError ''JSONDecodeError''), [])
      | Some json_data \<Rightarrow>
          (None,
           [BasicAck delivery_tag, ThreadStart json_data] @ wait_loop polls 0 @
           [Log (LogInfo ''Message processed, thread terminated'')]))"

section \<open>Notions and examples for the connector's properties\<close>

text \<open>The state that holds the stream cursor \<open>c\<close> and nothing else.\<close>

definition cursor_state :: "string \<Rightarrow> json" where
  "cursor_state c = JObject [(''connectorLastEventId'', JString c)]"

text \<open>The contract of the \<open>json\<close> module at a value: it serialises to a non-empty
  text that decodes to the same value.\<close>

definition roundtrips :: "json_module \<Rightarrow> json \<Rightarrow> bool" where
  "roundtrips J v \<longleftrightarrow> dumps J v \<noteq> [] \<and> loads J (dumps J v) = Some v"

definition nonempty_dict :: "json \<Rightarrow> bool" where
  "nonempty_dict v = (case v of JObject kvs \<Rightarrow> kvs \<noteq> [] | _ \<Rightarrow> False)"

text \<open>What \<open>get_state\<close> returns after one pass of the heartbeat loop.\<close>

definition state_after_ping ::
  "json_module \<Rightarrow> (json \<Rightarrow> error + string option) \<Rightarrow> ping_alive \<Rightarrow> error + json" where
  "state_after_ping J api_ping p =
     (case ping_iteration J api_ping p of
        Inl e \<Rightarrow> Inl e
      | Inr p' \<Rightarrow> Inr (get_state J (ping_helper p')))"

definition idle_helper :: helper where
  "idle_helper = \<lparr>connector_state = None, work_id = JNull, applicant_id = JNull\<rparr>"

definition fresh_ping :: ping_alive where
  "fresh_ping = \<lparr>in_error = False, ping_helper = idle_helper, ping_log = []\<rparr>"

text \<open>A control plane that holds the state \<open>{"connectorLastEventId": "12-0"}\<close>.\<close>

definition control_plane_reply :: "json \<Rightarrow> error + string option" where
  "control_plane_reply local_state = Inr (Some (json_dumps (cursor_state ''12-0'')))"

text \<open>The events of the stream example.\<close>

definition data_event :: "string \<Rightarrow> string \<Rightarrow> sse_event" where
  "data_event i d = \<lparr>msg_id = Some i, msg_event = ''data'', msg_data = d\<rparr>"

definition sync_event :: "string \<Rightarrow> sse_event" where
  "sync_event i = \<lparr>msg_id = Some i, msg_event = ''sync'', msg_data = []\<rparr>"

definition example_feed :: "string \<Rightarrow> string \<Rightarrow> (bool \<times> sse_event) list" where
  "example_feed d1 d3 =
     [(False, data_event ''10-0'' d1), (False, sync_event ''10-0''), (False, data_event ''11-0'' d3)]"

definition stream_at :: "json_module \<Rightarrow> string \<Rightarrow> listen_stream" where
  "stream_at J c =
     \<lparr>start_timestamp = None,
      stream_helper = \<lparr>connector_state = Some (dumps J (cursor_state c)), work_id = JNull, applicant_id = JNull\<rparr>,
      delivered = []\<rparr>"

definition accepting_callback :: "sse_event \<Rightarrow> error option" where
  "accepting_callback msg = None"

text \<open>A queue message, and an environment whose callback raises.\<close>

definition example_message :: json where
  "example_message =
     JObject [(''internal'', JObject [(''work_id'', JString ''work--1''), (''applicant_id'', JNull)]),
              (''event'', JObject [(''entity_id'', JString ''report--R'')])]"

definition failing_env :: "error \<Rightarrow> error option \<Rightarrow> worker_env" where
  "failing_env raised report_failure =
     \<lparr>to_received = (\<lambda>wid m. None),
      to_processed = (\<lambda>wid m is_error. if is_error then report_failure else None),
      message_callback = (\<lambda>event. Inl raised)\<rparr>"

definition heartbeat_event :: sse_event where
  "heartbeat_event = \<lparr>msg_id = None, msg_event = ''heartbeat'', msg_data = []\<rparr>"


section \<open>Properties of the splitter\<close>

subsection \<open>Deduplication\<close>

lemma dedup_loop_prefix: "\<exists>ys. dedup_loop xs ids fin = fin @ ys"
proof (induction xs arbitrary: ids fin)
  case (Cons a xs)
  show ?case
    using Cons [of "ids @ [obj_id a]" "fin @ [a]"] Cons [of ids fin] by auto
qed simp

lemma dedup_loop_ids:
  "ids = map obj_id fin \<Longrightarrow>
   set (map obj_id (dedup_loop xs ids fin)) = set ids \<union> set (map obj_id xs)"
proof (induction xs arbitrary: ids fin)
  case (Cons a xs)
  show ?case
  proof (cases "obj_id a \<in> set ids")
    case True
    then show ?thesis using Cons.IH [OF Cons.prems] by auto
  next
    case False
    have "ids @ [obj_id a] = map obj_id (fin @ [a])" using Cons.prems by simp
    from Cons.IH [OF this] False show ?thesis by auto
  qed
qed simp

lemma dedup_loop_distinct:
  "ids = map obj_id fin \<Longrightarrow> distinct ids \<Longrightarrow> distinct (map obj_id (dedup_loop xs ids fin))"
proof (induction xs arbitrary: ids fin)
  case (Cons a xs)
  show ?case
  proof (cases "obj_id a \<in> set ids")
    case True
    then show ?thesis using Cons.IH [OF Cons.prems] by simp
  next
    case False
    have "ids @ [obj_id a] = map obj_id (fin @ [a])" using Cons.prems by simp
    moreover have "distinct (ids @ [obj_id a])" using False Cons.prems by simp
    ultimately have "distinct (map obj_id (dedup_loop xs (ids @ [obj_id a]) (fin @ [a])))"
      by (rule Cons.IH)
    then show ?thesis using False by simp
  qed
qed simp

lemma dedup_ids: "set (map obj_id (stix2_deduplicate_objects items)) = set (map obj_id items)"
  using dedup_loop_ids [of "[]" "[]" items] by (simp add: stix2_deduplicate_objects_def)

lemma dedup_distinct: "distinct (map obj_id (stix2_deduplicate_objects items))"
  using dedup_loop_distinct [of "[]" "[]" items] by (simp add: stix2_deduplicate_objects_def)

lemma dedup_hd: "stix2_deduplicate_objects (x # xs) = x # tl (stix2_deduplicate_objects (x # xs))"
  using dedup_loop_prefix [of xs "[obj_id x]" "[x]"] by (auto simp: stix2_deduplicate_objects_def)

lemma relationship_objects_raises: "\<exists>e. stix2_get_relationship_objects cache_index r = Inl e"
  by (auto simp: stix2_get_relationship_objects_def stix2_get_embedded_objects_def getitem_def Let_def
      split: sum.splits)

lemma entity_objects_returns: "\<exists>rest. stix2_get_entity_objects cache_index x = Inr (x # rest)"
  by (auto simp: stix2_get_entity_objects_def stix2_get_embedded_objects_def getitem_def Let_def
      split: sum.splits option.splits)

lemma resolve_object_refs_prefix:
  "resolve_object_refs cache_index refs items = Inr res \<Longrightarrow> \<exists>ys. res = items @ ys"
proof (induction refs arbitrary: items)
  case (Cons r refs)
  then show ?case by (fastforce split: option.splits)
qed simp

lemma expand_items_prefix:
  "expand_items cache_index xs items = Inr res \<Longrightarrow> \<exists>ys. res = items @ ys"
proof (induction xs arbitrary: items)
  case (Cons x xs)
  then show ?case by (fastforce split: sum.splits)
qed simp

lemma report_objects_hd:
  "stix2_get_report_objects cache_index r = Inr items \<Longrightarrow> \<exists>rest. items = r # rest"
  by (auto simp: stix2_get_report_objects_def split: option.splits sum.splits
      dest!: resolve_object_refs_prefix expand_items_prefix)

lemma fst_emit: "fst (emit uuids items st) = fst st @ map obj_id (stix2_deduplicate_objects items)"
  by (simp add: emit_def Let_def)

lemma snd_emit:
  "\<exists>b. snd (emit uuids items st) = snd st @ [b] \<and> objects b = stix2_deduplicate_objects items"
  by (simp add: emit_def Let_def stix2_create_bundle_def)

lemma emitted_ids_append: "emitted_ids (bs @ cs) = emitted_ids bs \<union> emitted_ids cs"
  by (auto simp: emitted_ids_def)

lemma emitted_ids_single: "emitted_ids [b] = set (bundle_ids b)"
  by (simp add: emitted_ids_def)

lemma split_inv_emit: "split_inv st \<Longrightarrow> split_inv (emit uuids items st)"
proof -
  assume inv: "split_inv st"
  obtain b where b: "snd (emit uuids items st) = snd st @ [b]"
    "objects b = stix2_deduplicate_objects items"
    using snd_emit by blast
  have "bundle_ids b = map obj_id (stix2_deduplicate_objects items)"
    by (simp add: bundle_ids_def b)
  then show ?thesis
    using inv b dedup_distinct [of items] unfolding split_inv_def fst_emit
    by (auto simp: emitted_ids_append emitted_ids_single)
qed

lemma seeds_fresh_step:
  assumes "seeds_fresh (Suc (length bs)) (bs @ b # new)"
    and "objects b \<noteq> []" and "obj_id (hd (objects b)) \<notin> emitted_ids bs"
  shows "seeds_fresh (length bs) (bs @ b # new)"
  unfolding seeds_fresh_def
proof (intro allI impI)
  fix k assume k: "k < length (bs @ b # new)" "length bs \<le> k"
  show "objects ((bs @ b # new) ! k) \<noteq> [] \<and>
        obj_id (hd (objects ((bs @ b # new) ! k))) \<notin> emitted_ids (take k (bs @ b # new))"
  proof (cases "k = length bs")
    case True
    then show ?thesis using assms(2,3) by simp
  next
    case False
    then have "Suc (length bs) \<le> k" using k by simp
    then show ?thesis using assms(1) k unfolding seeds_fresh_def by blast
  qed
qed

lemma relationship_loop_returns:
  "relationship_loop cache_index uuids objs st = Inr st' \<Longrightarrow>
   st' = st \<and> (\<forall>x\<in>set objs. obj_type x = ''relationship'' \<longrightarrow> obj_id x \<in> set (fst st))"
proof (induction objs)
  case (Cons item rest)
  then show ?case
    using relationship_objects_raises [of cache_index item]
    by (auto split: if_splits sum.splits)
qed simp

lemma report_loop_returns:
  "report_loop cache_index uuids objs st = Inr st' \<Longrightarrow> split_inv st \<Longrightarrow>
   split_inv st' \<and>
   (\<exists>new. snd st' = snd st @ new \<and>
      map (hd \<circ> objects) new = filter (\<lambda>x. obj_type x = ''report'') objs \<and>
      (\<forall>b\<in>set new. objects b \<noteq> []))"
proof (induction objs arbitrary: st)
  case Nil
  then show ?case by simp
next
  case (Cons item rest)
  show ?case
  proof (cases "obj_type item = ''report''")
    case False
    then show ?thesis using Cons by simp
  next
    case True
    then obtain items where items: "stix2_get_report_objects cache_index item = Inr items"
      and rec: "report_loop cache_index uuids rest (emit uuids items st) = Inr st'"
      using Cons.prems(1) by (auto split: sum.splits)
    obtain tl_items where hd: "items = item # tl_items"
      using report_objects_hd [OF items] by blast
    obtain b where b: "snd (emit uuids items st) = snd st @ [b]"
      "objects b = stix2_deduplicate_objects items"
      using snd_emit by blast
    have hdb: "objects b \<noteq> []" "hd (objects b) = item"
      using dedup_hd [of item tl_items] b(2) hd by (metis list.distinct(1), metis list.sel(1))
    from Cons.IH [OF rec split_inv_emit [OF Cons.prems(2)]]
    obtain new where new: "split_inv st'" "snd st' = snd (emit uuids items st) @ new"
      "map (hd \<circ> objects) new = filter (\<lambda>x. obj_type x = ''report'') rest"
      "\<forall>b\<in>set new. objects b \<noteq> []"
      by blast
    have "snd st' = snd st @ (b # new)" using new(2) b(1) by simp
    moreover have "map (hd \<circ> objects) (b # new) = filter (\<lambda>x. obj_type x = ''report'') (item # rest)"
      using True hdb new(3) by simp
    moreover have "\<forall>c\<in>set (b # new). objects c \<noteq> []" using hdb new(4) by simp
    ultimately show ?thesis using new(1) by blast
  qed
qed

lemma entity_loop_returns:
  "entity_loop cache_index uuids objs st = Inr st' \<Longrightarrow> split_inv st \<Longrightarrow>
   split_inv st' \<and>
   (\<exists>new. snd st' = snd st @ new) \<and>
   seeds_fresh (length (snd st)) (snd st') \<and>
   set (fst st) \<subseteq> set (fst st') \<and>
   (\<forall>x\<in>set objs. obj_type x \<noteq> ''relationship'' \<longrightarrow> obj_id x \<in> set (fst st'))"
proof (induction objs arbitrary: st)
  case Nil
  then show ?case by (simp add: seeds_fresh_def)
next
  case (Cons item rest)
  show ?case
  proof (cases "obj_type item \<noteq> ''relationship'' \<and> obj_id item \<notin> set (fst st)")
    case False
    then have "entity_loop cache_index uuids rest st = Inr st'" using Cons.prems(1) by auto
    from Cons.IH [OF this Cons.prems(2)] False show ?thesis by auto
  next
    case True
    then obtain items where items: "stix2_get_entity_objects cache_index item = Inr items"
      and rec: "entity_loop cache_index uuids rest (emit uuids items st) = Inr st'"
      using Cons.prems(1) by (auto split: sum.splits)
    obtain tl_items where hd: "items = item # tl_items"
      using entity_objects_returns [of cache_index item] items by auto
    obtain b where b: "snd (emit uuids items st) = snd st @ [b]"
      "objects b = stix2_deduplicate_objects items"
      using snd_emit by blast
    have hdb: "objects b \<noteq> []" "hd (objects b) = item"
      using dedup_hd [of item tl_items] b(2) hd by (metis list.distinct(1), metis list.sel(1))
    from Cons.IH [OF rec split_inv_emit [OF Cons.prems(2)]]
    obtain new where new: "split_inv st'" "snd st' = snd (emit uuids items st) @ new"
      "seeds_fresh (length (snd (emit uuids items st))) (snd st')"
      "set (fst (emit uuids items st)) \<subseteq> set (fst st')"
      "\<forall>x\<in>set rest. obj_type x \<noteq> ''relationship'' \<longrightarrow> obj_id x \<in> set (fst st')"
      by blast
    have eq: "snd st' = snd st @ b # new" using new(2) b(1) by simp
    have fresh: "obj_id item \<notin> emitted_ids (snd st)"
      using True Cons.prems(2) by (simp add: split_inv_def)
    have sf: "seeds_fresh (Suc (length (snd st))) (snd st @ b # new)"
      using new(3) unfolding eq b(1) by simp
    have c3: "seeds_fresh (length (snd st)) (snd st')"
      unfolding eq by (rule seeds_fresh_step [OF sf hdb(1)]) (simp add: hdb(2) fresh)
    have mem: "obj_id item \<in> set (fst (emit uuids items st))"
    proof -
      have "obj_id item \<in> set (map obj_id (stix2_deduplicate_objects items))"
        unfolding dedup_ids using hd by simp
      then show ?thesis unfolding fst_emit by simp
    qed
    have sub: "set (fst st) \<subseteq> set (fst (emit uuids items st))"
      unfolding fst_emit by simp
    have c4: "set (fst st) \<subseteq> set (fst st')" using sub new(4) by blast
    have c5: "\<forall>x\<in>set (item # rest). obj_type x \<noteq> ''relationship'' \<longrightarrow> obj_id x \<in> set (fst st')"
      using mem new(4,5) by auto
    show ?thesis using new(1) eq c3 c4 c5 by blast
  qed
qed

text \<open>
  Claim C1, as the code has it. The claim says that no id occurs in more than one
  sub-bundle. The passes test only the object a sub-bundle starts from against
  \<open>cache_added\<close>; the objects its closure pulls in are emitted again with every object
  that refers to them. For the bundle of an identity and an indicator created by it, the
  identity is emitted alone and then again with the indicator.
\<close>

theorem split_reemits_closure_member:
  "map_sum id (map bundle_ids) (split_stix2_bundle example_uuids (Some author_bundle)) =
     Inr [[''identity--I''], [''indicator--A'', ''identity--I'']]"
  by code_simp

text \<open>
  Claim C1, amended: whenever \<open>split_stix2_bundle\<close> returns, every id of the source
  bundle occurs in at least one sub-bundle, no sub-bundle holds an id twice, and every
  sub-bundle after those of the report pass starts with an object whose id occurs in no
  earlier sub-bundle.
\<close>

theorem split_covers_source:
  assumes "split_stix2_bundle uuids (Some objs) = Inr bundles"
  shows "(\<forall>x\<in>set objs. obj_id x \<in> emitted_ids bundles) \<and>
         (\<forall>b\<in>set bundles. distinct (bundle_ids b)) \<and>
         seeds_fresh (length (filter (\<lambda>x. obj_type x = ''report'') objs)) bundles"
proof -
  let ?idx = "index_objects objs"
  obtain st1 st2 st3 where
    r1: "report_loop ?idx uuids objs ([], []) = Inr st1" and
    r2: "relationship_loop ?idx uuids objs st1 = Inr st2" and
    r3: "entity_loop ?idx uuids objs st2 = Inr st3" and
    res: "bundles = snd st3"
    using assms by (auto simp: split_stix2_bundle_def Let_def split: sum.splits)
  have inv0: "split_inv ([], [])" by (simp add: split_inv_def emitted_ids_def)
  from report_loop_returns [OF r1 inv0] obtain new where
    inv1: "split_inv st1" and new: "snd st1 = new"
    "map (hd \<circ> objects) new = filter (\<lambda>x. obj_type x = ''report'') objs"
    by auto
  have len1: "length (snd st1) = length (filter (\<lambda>x. obj_type x = ''report'') objs)"
    using new by (metis length_map)
  from relationship_loop_returns [OF r2] have
    st2: "st2 = st1" and
    rels: "\<forall>x\<in>set objs. obj_type x = ''relationship'' \<longrightarrow> obj_id x \<in> set (fst st1)"
    by auto
  from entity_loop_returns [OF r3 [unfolded st2] inv1] have
    inv3: "split_inv st3" and
    fresh: "seeds_fresh (length (snd st1)) (snd st3)" and
    sub: "set (fst st1) \<subseteq> set (fst st3)" and
    ents: "\<forall>x\<in>set objs. obj_type x \<noteq> ''relationship'' \<longrightarrow> obj_id x \<in> set (fst st3)"
    by auto
  have "\<forall>x\<in>set objs. obj_id x \<in> set (fst st3)"
    using rels ents sub by blast
  then have "\<forall>x\<in>set objs. obj_id x \<in> emitted_ids bundles"
    using inv3 res by (simp add: split_inv_def)
  moreover have "\<forall>b\<in>set bundles. distinct (bundle_ids b)"
    using inv3 res by (simp add: split_inv_def)
  ultimately show ?thesis using fresh len1 res by simp
qed

theorem split_covers_source_witness:
  "split_stix2_bundle example_uuids (Some author_bundle) =
     Inr [stix2_create_bundle (example_uuids 0) [author_bundle ! 0],
          stix2_create_bundle (example_uuids 1) [author_bundle ! 1, author_bundle ! 0]] \<and>
   ''identity--I'' \<in> emitted_ids
      [stix2_create_bundle (example_uuids 0) [author_bundle ! 0],
       stix2_create_bundle (example_uuids 1) [author_bundle ! 1, author_bundle ! 0]] \<and>
   distinct (bundle_ids
      (stix2_create_bundle (example_uuids 1) [author_bundle ! 1, author_bundle ! 0])) \<and>
   ''indicator--A'' \<notin> emitted_ids [stix2_create_bundle (example_uuids 0) [author_bundle ! 0]]"
proof -
  let ?bs = "[stix2_create_bundle (example_uuids 0) [author_bundle ! 0],
              stix2_create_bundle (example_uuids 1) [author_bundle ! 1, author_bundle ! 0]]"
  have run: "split_stix2_bundle example_uuids (Some author_bundle) = Inr ?bs"
    by code_simp
  have objs: "author_bundle ! 0 \<in> set author_bundle" "obj_id (author_bundle ! 0) = ''identity--I''"
    "obj_id (author_bundle ! 1) = ''indicator--A''"
    "length (filter (\<lambda>x. obj_type x = ''report'') author_bundle) = 0"
    by (simp_all add: author_bundle_def plain_object_def)
  from split_covers_source [OF run] have
    a: "\<forall>x\<in>set author_bundle. obj_id x \<in> emitted_ids ?bs" and
    b: "\<forall>b\<in>set ?bs. distinct (bundle_ids b)" and
    c: "seeds_fresh 0 ?bs"
    unfolding objs(4) by blast+
  have "''identity--I'' \<in> emitted_ids ?bs" using a objs(1,2) by metis
  moreover have "distinct (bundle_ids (?bs ! 1))" using b by simp
  moreover have "obj_id (hd (objects (?bs ! 1))) \<notin> emitted_ids (take 1 ?bs)"
    using c unfolding seeds_fresh_def by (metis One_nat_def le0 length_Cons lessI list.size(3))
  ultimately show ?thesis
    using run objs(3) by (simp add: stix2_create_bundle_def)
qed

text \<open>
  Claim C2. On the bundle of the claim the report pass reaches relationship X, and
  \<open>stix2_get_relationship_objects\<close> reads the key \<open>created_by\<close> from a dictionary that
  \<open>stix2_get_embedded_objects\<close> builds with the keys \<open>object_marking_refs\<close> and
  \<open>created_by_ref\<close>: the split raises \<open>KeyError\<close> and returns no sub-bundle.
\<close>

theorem split_report_bundle_raises:
  "split_stix2_bundle example_uuids (Some report_bundle) = Inl (KeyError ''created_by'')"
  by code_simp

text \<open>
  Claim C3. A report whose \<open>object_refs\<close> names an id outside the bundle: the first loop
  of \<open>stix2_get_report_objects\<close> indexes \<open>cache_index\<close> without the membership test that
  guards the other references, and the split raises \<open>KeyError\<close> on the dangling id.
\<close>

theorem split_dangling_object_ref_raises:
  "split_stix2_bundle example_uuids (Some dangling_report_bundle) =
     Inl (KeyError ''indicator--missing'')"
  by code_simp

text \<open>
  Claim C8. A relationship that no report has emitted reaches
  \<open>stix2_get_relationship_objects\<close> in the relationship pass, which raises: the split
  returns no sequence of sub-bundles at all, where the claim has one sub-bundle for the
  relationship.
\<close>

theorem split_loose_relationship_raises:
  "split_stix2_bundle example_uuids (Some loose_relationship_bundle) =
     Inl (KeyError ''created_by'')"
  by code_simp

text \<open>What the ordering amounts to when the split returns: the sub-bundles of the reports
  come first, one per report in source order; the relationship pass has added none; the
  remaining sub-bundles start from objects other than relationships, in source order.\<close>

lemma entity_loop_seeds:
  "entity_loop cache_index uuids objs st = Inr st' \<Longrightarrow>
   \<exists>new. snd st' = snd st @ new \<and>
     subseq (map (hd \<circ> objects) new) (filter (\<lambda>x. obj_type x \<noteq> ''relationship'') objs)"
proof (induction objs arbitrary: st)
  case Nil
  then show ?case by simp
next
  case (Cons item rest)
  show ?case
  proof (cases "obj_type item \<noteq> ''relationship'' \<and> obj_id item \<notin> set (fst st)")
    case False
    then have "entity_loop cache_index uuids rest st = Inr st'" using Cons.prems by auto
    from Cons.IH [OF this] obtain new where
      new: "snd st' = snd st @ new"
      "subseq (map (hd \<circ> objects) new) (filter (\<lambda>x. obj_type x \<noteq> ''relationship'') rest)"
      by blast
    have "subseq (map (hd \<circ> objects) new)
            (filter (\<lambda>x. obj_type x \<noteq> ''relationship'') (item # rest))"
      using new(2) by (auto intro: list_emb.intros)
    then show ?thesis using new(1) by blast
  next
    case True
    then obtain items where items: "stix2_get_entity_objects cache_index item = Inr items"
      and rec: "entity_loop cache_index uuids rest (emit uuids items st) = Inr st'"
      using Cons.prems by (auto split: sum.splits)
    obtain tl_items where hd: "items = item # tl_items"
      using entity_objects_returns [of cache_index item] items by auto
    obtain b where b: "snd (emit uuids items st) = snd st @ [b]"
      "objects b = stix2_deduplicate_objects items"
      using snd_emit by blast
    have hdb: "hd (objects b) = item"
      using dedup_hd [of item tl_items] b(2) hd by (metis list.sel(1))
    from Cons.IH [OF rec] obtain new where
      new: "snd st' = snd (emit uuids items st) @ new"
      "subseq (map (hd \<circ> objects) new) (filter (\<lambda>x. obj_type x \<noteq> ''relationship'') rest)"
      by blast
    have "snd st' = snd st @ (b # new)" using new(1) b(1) by simp
    moreover have "subseq (map (hd \<circ> objects) (b # new))
            (filter (\<lambda>x. obj_type x \<noteq> ''relationship'') (item # rest))"
      using new(2) True hdb by simp
    ultimately show ?thesis by blast
  qed
qed

lemma split_order_when_returns:
  assumes "split_stix2_bundle uuids (Some objs) = Inr bundles"
  shows "\<exists>seeds. map (hd \<circ> objects) bundles = filter (\<lambda>x. obj_type x = ''report'') objs @ seeds \<and>
           subseq seeds (filter (\<lambda>x. obj_type x \<noteq> ''relationship'') objs)"
proof -
  let ?idx = "index_objects objs"
  obtain st1 st2 st3 where
    r1: "report_loop ?idx uuids objs ([], []) = Inr st1" and
    r2: "relationship_loop ?idx uuids objs st1 = Inr st2" and
    r3: "entity_loop ?idx uuids objs st2 = Inr st3" and
    res: "bundles = snd st3"
    using assms by (auto simp: split_stix2_bundle_def Let_def split: sum.splits)
  have inv0: "split_inv ([], [])" by (simp add: split_inv_def emitted_ids_def)
  from report_loop_returns [OF r1 inv0] have
    seeds: "map (hd \<circ> objects) (snd st1) = filter (\<lambda>x. obj_type x = ''report'') objs"
    by auto
  have st2: "st2 = st1" using relationship_loop_returns [OF r2] by simp
  from entity_loop_seeds [OF r3 [unfolded st2]] obtain new where
    "snd st3 = snd st1 @ new"
    "subseq (map (hd \<circ> objects) new) (filter (\<lambda>x. obj_type x \<noteq> ''relationship'') objs)"
    by blast
  then show ?thesis using seeds res by auto
qed

section \<open>Properties of the TLP check\<close>

text \<open>
  Claim C9: for any two of the four levels, \<open>check_max_tlp tlp max_tlp\<close> returns true
  exactly when \<open>tlp\<close> is at or below \<open>max_tlp\<close> in the containment order; so GREEN is
  allowed under AMBER, and RED is not allowed under GREEN.
\<close>

theorem check_max_tlp_containment:
  assumes "tlp \<in> set tlp_levels" and "max_tlp \<in> set tlp_levels"
  shows "check_max_tlp tlp max_tlp = Inr (tlp_rank tlp \<le> tlp_rank max_tlp)"
  using assms
  by (auto simp: tlp_levels_def check_max_tlp_def allowed_tlps_def getitem_def tlp_rank_def)

theorem check_max_tlp_containment_witness:
  "check_max_tlp ''TLP:GREEN'' ''TLP:AMBER'' = Inr True \<and>
   check_max_tlp ''TLP:RED'' ''TLP:GREEN'' = Inr False"
  using check_max_tlp_containment [of "''TLP:GREEN''" "''TLP:AMBER''"]
        check_max_tlp_containment [of "''TLP:RED''" "''TLP:GREEN''"]
  by (simp add: tlp_levels_def tlp_rank_def)

section \<open>Properties of the executable \<open>json\<close> module\<close>

subsection \<open>Strings\<close>







subsection \<open>Numbers\<close>

declare nat_digits.simps [simp del]











subsection \<open>Values\<close>














subsection \<open>Fuel\<close>








section \<open>Properties of the connector state and the stream consumer\<close>

lemma get_state_stored:
  assumes "roundtrips J v" and "nonempty_dict v" and "connector_state h = Some (dumps J v)"
  shows "get_state J h = v"
  using assms
  by (auto simp: get_state_def roundtrips_def nonempty_dict_def split: json.splits)

lemma checkpoint_cursor:
  assumes "roundtrips J (cursor_state c)"
    and "connector_state h = Some (dumps J (cursor_state c))"
  shows "checkpoint J c' h = Inr (h\<lparr>connector_state := Some (dumps J (cursor_state c'))\<rparr>)"
proof -
  have "get_state J h = cursor_state c"
    using assms by (intro get_state_stored) (simp_all add: nonempty_dict_def cursor_state_def)
  then show ?thesis
    by (simp add: checkpoint_def cursor_state_def set_state_def)
qed

lemma iter_messages_skip:
  assumes "msg_event hb = ''heartbeat'' \<or> msg_event hb = ''connected''"
  shows "iter_messages J callback (xs @ (False, hb) # ys) ls = iter_messages J callback (xs @ ys) ls"
proof (induction xs arbitrary: ls)
  case Nil
  then show ?case using assms by simp
next
  case (Cons x xs)
  obtain exit_flag msg where x: "x = (exit_flag, msg)" by (cases x)
  show ?case
    unfolding x using Cons.IH
    by (simp add: Let_def split: sum.splits option.splits)
qed

text \<open>
  Claim C5: with a \<open>json\<close> module that round-trips the three cursor states and a callback
  that returns on the two data events, the consumer started from the state
  \<open>{connectorLastEventId: "-"}\<close> on the events data 10-0, sync 10-0, data 11-0 ends
  without an exception, has invoked the callback exactly on the two data events, and leaves
  the cursor at 11-0; a heartbeat or connected event inserted at any position changes
  neither the invocations nor the state.
\<close>

theorem stream_consumer_example:
  assumes "roundtrips J (cursor_state ''-'')"
    and "roundtrips J (cursor_state ''10-0'')"
    and "roundtrips J (cursor_state ''11-0'')"
    and "callback (data_event ''10-0'' d1) = None"
    and "callback (data_event ''11-0'' d3) = None"
    and "connector_state (stream_helper ls) = Some (dumps J (cursor_state ''-''))"
    and "delivered ls = []"
    and "msg_event hb = ''heartbeat'' \<or> msg_event hb = ''connected''"
  shows "fst (listen_stream_run J callback (example_feed d1 d3) ls) = None \<and>
         delivered (snd (listen_stream_run J callback (example_feed d1 d3) ls)) =
           [data_event ''10-0'' d1, data_event ''11-0'' d3] \<and>
         get_state J (stream_helper (snd (listen_stream_run J callback (example_feed d1 d3) ls))) =
           cursor_state ''11-0'' \<and>
         listen_stream_run J callback
            (take i (example_feed d1 d3) @ (False, hb) # drop i (example_feed d1 d3)) ls =
           listen_stream_run J callback (example_feed d1 d3) ls"
proof -
  let ?h = "stream_helper ls"
  let ?h1 = "?h\<lparr>connector_state := Some (dumps J (cursor_state ''10-0''))\<rparr>"
  let ?h3 = "?h\<lparr>connector_state := Some (dumps J (cursor_state ''11-0''))\<rparr>"
  let ?e1 = "data_event ''10-0'' d1" and ?e3 = "data_event ''11-0'' d3"
  have g0: "get_state J ?h = cursor_state ''-''"
    using assms(1,6) by (intro get_state_stored) (simp_all add: nonempty_dict_def cursor_state_def)
  have c1: "checkpoint J ''10-0'' ?h = Inr ?h1"
    using checkpoint_cursor [OF assms(1,6)] .
  have c2: "checkpoint J ''10-0'' ?h1 = Inr ?h1"
    using checkpoint_cursor [OF assms(2), of ?h1 "''10-0''"] by simp
  have c3: "checkpoint J ''11-0'' ?h1 = Inr ?h3"
    using checkpoint_cursor [OF assms(2), of ?h1 "''11-0''"] by simp
  have g3: "get_state J ?h3 = cursor_state ''11-0''"
    using assms(3) by (intro get_state_stored) (simp_all add: nonempty_dict_def cursor_state_def)
  have start: "listen_stream_run J callback msgs ls = iter_messages J callback msgs ls" for msgs
    using g0 by (simp add: listen_stream_run_def cursor_state_def)
  have run: "iter_messages J callback (example_feed d1 d3) ls =
               (None, ls\<lparr>delivered := [?e1, ?e3], stream_helper := ?h3\<rparr>)"
    using assms(4,5,7) c1 c2 c3
    by (simp add: example_feed_def checkpoint_if_id_def data_event_def sync_event_def Let_def)
  have skip: "iter_messages J callback
                (take i (example_feed d1 d3) @ (False, hb) # drop i (example_feed d1 d3)) ls =
              iter_messages J callback (example_feed d1 d3) ls"
    using iter_messages_skip [OF assms(8), of J callback "take i (example_feed d1 d3)"
        "drop i (example_feed d1 d3)" ls]
    by simp
  show ?thesis
    unfolding start skip unfolding run using g3 by simp
qed

theorem stream_consumer_example_witness:
  "fst (listen_stream_run py_json accepting_callback (example_feed ''a'' ''b'') (stream_at py_json ''-'')) = None \<and>
   delivered (snd (listen_stream_run py_json accepting_callback (example_feed ''a'' ''b'') (stream_at py_json ''-''))) =
     [data_event ''10-0'' ''a'', data_event ''11-0'' ''b''] \<and>
   get_state py_json (stream_helper (snd (listen_stream_run py_json accepting_callback (example_feed ''a'' ''b'') (stream_at py_json ''-'')))) =
     cursor_state ''11-0'' \<and>
   listen_stream_run py_json accepting_callback
      (take 1 (example_feed ''a'' ''b'') @ (False, heartbeat_event) # drop 1 (example_feed ''a'' ''b''))
      (stream_at py_json ''-'') =
     listen_stream_run py_json accepting_callback (example_feed ''a'' ''b'') (stream_at py_json ''-'')"
proof -
  have r1: "roundtrips py_json (cursor_state ''-'')" by code_simp
  have r2: "roundtrips py_json (cursor_state ''10-0'')" by code_simp
  have r3: "roundtrips py_json (cursor_state ''11-0'')" by code_simp
  have cb: "accepting_callback (data_event ''10-0'' ''a'') = None"
    "accepting_callback (data_event ''11-0'' ''b'') = None"
    by (simp_all add: accepting_callback_def)
  have st: "connector_state (stream_helper (stream_at py_json ''-'')) =
              Some (dumps py_json (cursor_state ''-''))"
    "delivered (stream_at py_json ''-'') = []"
    by (simp_all add: stream_at_def)
  have hb: "msg_event heartbeat_event = ''heartbeat'' \<or> msg_event heartbeat_event = ''connected''"
    by (simp add: heartbeat_event_def)
  show ?thesis
    using stream_consumer_example [OF r1 r2 r3 cb st hb, of 1] by simp
qed




section \<open>Properties of the heartbeat\<close>

text \<open>
  Claim C4. The local state is absent and the control plane answers with the state
  \<open>{"connectorLastEventId": "12-0"}\<close>: the states differ, \<open>ping\<close> calls \<open>set_state\<close> on
  the JSON text of the answer rather than on the decoded state, \<open>set_state\<close> encodes that
  text once more, and the next \<open>get_state\<close> decodes a string and returns \<open>None\<close>, not
  the remote state.
\<close>

theorem ping_reset_stores_encoded_string:
  "get_state py_json (ping_helper fresh_ping) = JNull \<and>
   control_plane_reply JNull = Inr (Some (json_dumps (cursor_state ''12-0''))) \<and>
   json_loads (json_dumps (cursor_state ''12-0'')) = Some (cursor_state ''12-0'') \<and>
   state_after_ping py_json control_plane_reply fresh_ping = Inr JNull"
  by code_simp

text \<open>The same for every \<open>json\<close> module and every answer that differs from the local
  state: after the reset \<open>get_state\<close> returns \<open>None\<close>.\<close>

lemma ping_reset_loses_remote_state:
  assumes "api_ping (get_state J (ping_helper p)) = Inr (Some s)" and "s \<noteq> []"
    and "loads J s = Some remote"
    and "\<not> py_eq (get_state J (ping_helper p)) remote"
    and "roundtrips J (JString s)"
  shows "state_after_ping J api_ping p = Inr JNull"
proof -
  let ?h = "set_state J (JString s) (ping_helper p)"
  have "get_state J ?h = JNull"
    using assms(5) by (simp add: get_state_def set_state_def roundtrips_def)
  then show ?thesis
    using assms(1-4)
    by (simp add: state_after_ping_def ping_iteration_def ping_try_def Let_def json_of_str_def)
qed

section \<open>Properties of the queue consumer\<close>

text \<open>
  Claim C6, as the code has it. The claim says that a message whose body fails to decode
  has already been acknowledged. \<open>_process_message\<close> decodes first and acknowledges after:
  on a body that does not decode it raises with no call made on the channel.
\<close>

theorem process_message_unacked_on_decode_failure:
  "json_loads ''not json'' = None \<and>
   process_message py_json 7 ''not json'' [JNull] = (Some (ValueError ''JSONDecodeError''), []) \<and>
   BasicAck 7 \<notin> set (snd (process_message py_json 7 ''not json'' [JNull]))"
  by code_simp

text \<open>
  Claim C6, amended: a message whose body fails to decode ends its handling with the
  decoding error and is not acknowledged; a message whose body decodes is acknowledged
  first, and the worker is started next.
\<close>

theorem process_message_decode_then_ack:
  "(loads J body = None \<longrightarrow>
      process_message J delivery_tag body polls = (Some (ValueError ''JSONDecodeError''), [])) \<and>
   (loads J body = Some json_data \<longrightarrow>
      fst (process_message J delivery_tag body polls) = None \<and>
      take 2 (snd (process_message J delivery_tag body polls)) =
        [BasicAck delivery_tag, ThreadStart json_data])"
  by (simp add: process_message_def)

theorem process_message_decode_then_ack_witness:
  "process_message py_json 7 ''not json'' [JNull] = (Some (ValueError ''JSONDecodeError''), []) \<and>
   fst (process_message py_json 7 (json_dumps example_message) [JNull]) = None \<and>
   take 2 (snd (process_message py_json 7 (json_dumps example_message) [JNull])) =
     [BasicAck 7, ThreadStart example_message]"
proof -
  have a: "loads py_json ''not json'' = None" by code_simp
  have b: "loads py_json (json_dumps example_message) = Some example_message" by code_simp
  show ?thesis
    using process_message_decode_then_ack [of py_json "''not json''" 7 "[JNull]" JNull]
          process_message_decode_then_ack [of py_json "json_dumps example_message" 7 "[JNull]"
            example_message]
          a b
    by simp
qed

text \<open>
  Claim C7, as the code has it. The claim covers every exception of the callback. The
  handler catches with \<open>except Exception\<close>: a callback that raises \<open>SystemExit\<close> ends the
  worker with that exception and no call of \<open>to_processed\<close>.
\<close>

theorem data_handler_system_exit_escapes:
  "data_handler (failing_env (BaseException ''SystemExit'') None) example_message idle_helper =
     (Some (BaseException ''SystemExit''),
      idle_helper\<lparr>work_id := JString ''work--1''\<rparr>,
      [ToReceived (JString ''work--1'') ''Connector ready to process the operation'',
       Callback (JObject [(''entity_id'', JString ''report--R'')])])"
  by code_simp

text \<open>
  Claim C7, amended: when the callback raises an exception that derives from \<open>Exception\<close>,
  the worker calls \<open>to_processed(work_id, str(e), True)\<close>, no exception leaves the handler,
  and when that report raises in turn, the handler only logs it.
\<close>

theorem data_handler_reports_callback_failure:
  assumes "subscript json_data ''internal'' = Inr internal"
    and "subscript internal ''work_id'' = Inr wid"
    and "subscript internal ''applicant_id'' = Inr aid"
    and "to_received env wid ''Connector ready to process the operation'' = None"
    and "subscript json_data ''event'' = Inr event"
    and "message_callback env event = Inl e"
    and "derives_from_Exception e"
  shows "fst (data_handler env json_data h) = None \<and>
         snd (snd (data_handler env json_data h)) =
           (if aid \<noteq> JNull then [SetApplicantIdHeader aid] else []) @
           [ToReceived wid ''Connector ready to process the operation'',
            Callback event,
            Log (LogException ''Error in message processing, reporting error to API''),
            ToProcessed wid (str_of_error e) True] @
           (if to_processed env wid (str_of_error e) True = None then []
            else [Log (LogError ''Failing reporting the processing'')])"
  using assms
  by (auto simp: data_handler_def data_handler_try_def Let_def split: option.splits)

theorem data_handler_reports_callback_failure_witness:
  "fst (data_handler (failing_env (KeyError ''name'') (Some (Exception ''api down'')))
          example_message idle_helper) = None \<and>
   snd (snd (data_handler (failing_env (KeyError ''name'') (Some (Exception ''api down'')))
          example_message idle_helper)) =
     [ToReceived (JString ''work--1'') ''Connector ready to process the operation'',
      Callback (JObject [(''entity_id'', JString ''report--R'')]),
      Log (LogException ''Error in message processing, reporting error to API''),
      ToProcessed (JString ''work--1'') (str_of_error (KeyError ''name'')) True,
      Log (LogError ''Failing reporting the processing'')]"
proof -
  let ?env = "failing_env (KeyError ''name'') (Some (Exception ''api down''))"
  let ?internal = "JObject [(''work_id'', JString ''work--1''), (''applicant_id'', JNull)]"
  let ?event = "JObject [(''entity_id'', JString ''report--R'')]"
  have a: "subscript example_message ''internal'' = Inr ?internal" by code_simp
  have b: "subscript ?internal ''work_id'' = Inr (JString ''work--1'')" by code_simp
  have c: "subscript ?internal ''applicant_id'' = Inr JNull" by code_simp
  have d: "to_received ?env (JString ''work--1'') ''Connector ready to process the operation'' = None"
    by (simp add: failing_env_def)
  have e: "subscript example_message ''event'' = Inr ?event" by code_simp
  have f: "message_callback ?env ?event = Inl (KeyError ''name'')"
    by (simp add: failing_env_def)
  have g: "derives_from_Exception (KeyError ''name'')" by simp
  have r: "to_processed ?env (JString ''work--1'') (str_of_error (KeyError ''name'')) True \<noteq> None"
    by (simp add: failing_env_def)
  show ?thesis
    using data_handler_reports_callback_failure [OF a b c d e f g, of idle_helper] r by simp
qed

end
